theory Spec2Isabelle
  imports Main "HOL-Library.Sublist"
begin

section \<open>The inclusion resolver of convert-whole-document.py\<close>

text \<open>
  The development embeds \<^verbatim>\<open>process_tex_recursively\<close>, the nested function of
  \<^verbatim>\<open>create_combined_tex\<close> in \<^verbatim>\<open>src/convert-whole-document.py\<close>, together with the
  library calls it makes: the string methods, the four directive patterns and the six
  structural patterns of module \<^verbatim>\<open>re\<close>, and the functions of \<^verbatim>\<open>os.path\<close> in their
  POSIX form (\<^verbatim>\<open>os.sep\<close> is the slash).

  Text is a \<^typ>\<open>string\<close>, one \<^typ>\<open>char\<close> per character of the Python string (code points
  below 256); offsets count characters, as \<^verbatim>\<open>match.start()\<close> does.
\<close>

subsection \<open>Characters and string methods\<close>

abbreviation backslash :: char where
  "backslash \<equiv> CHR 0x5C"

abbreviation newline :: char where
  "newline \<equiv> CHR 0x0A"

abbreviation slash :: char where
  "slash \<equiv> CHR ''/''"

abbreviation rbrace :: char where
  "rbrace \<equiv> CHR ''}''"

text \<open>\<^verbatim>\<open>str.isspace\<close> on the characters below 256: what \<^verbatim>\<open>str.strip()\<close> removes.\<close>

definition is_space :: "char \<Rightarrow> bool" where
  "is_space c = (c \<in> set [CHR 0x09, CHR 0x0A, CHR 0x0B, CHR 0x0C, CHR 0x0D,
                            CHR 0x1C, CHR 0x1D, CHR 0x1E, CHR 0x1F, CHR 0x20,
                            CHR 0x85, CHR 0xA0])"

text \<open>\<^verbatim>\<open>s.strip()\<close>\<close>

definition str_strip :: "string \<Rightarrow> string" where
  "str_strip s = rev (dropWhile is_space (rev (dropWhile is_space s)))"

text \<open>\<^verbatim>\<open>s.endswith(suf)\<close> and \<^verbatim>\<open>s.startswith(pre)\<close>\<close>

definition endswith :: "string \<Rightarrow> string \<Rightarrow> bool" where
  "endswith s suf = prefix (rev suf) (rev s)"

definition startswith :: "string \<Rightarrow> string \<Rightarrow> bool" where
  "startswith s pre = prefix pre s"

text \<open>\<^verbatim>\<open>s.replace('\\', os.sep)\<close>\<close>

definition replace_backslash :: "string \<Rightarrow> string" where
  "replace_backslash s = map (\<lambda>c. if c = backslash then slash else c) s"

text \<open>\<^verbatim>\<open>s.split('/')\<close> and \<^verbatim>\<open>'/'.join(parts)\<close>\<close>

fun split_sep :: "string \<Rightarrow> string list" where
  "split_sep [] = [[]]"
| "split_sep (c # cs) =
     (if c = slash then [] # split_sep cs
      else (case split_sep cs of [] \<Rightarrow> [[c]] | w # ws \<Rightarrow> (c # w) # ws))"

fun join_sep :: "string list \<Rightarrow> string" where
  "join_sep [] = []"
| "join_sep [x] = x"
| "join_sep (x # y # zs) = x @ slash # join_sep (y # zs)"

text \<open>\<^verbatim>\<open>', '.join(names)\<close>\<close>

fun join_comma :: "string list \<Rightarrow> string" where
  "join_comma [] = []"
| "join_comma [x] = x"
| "join_comma (x # y # zs) = x @ '', '' @ join_comma (y # zs)"

subsection \<open>posixpath\<close>

text \<open>
  \<^verbatim>\<open>os.path.join(a, b)\<close>: an absolute second part replaces the first; otherwise the
  parts are joined with one slash unless the first is empty or already ends in one.
\<close>

definition os_path_join :: "string \<Rightarrow> string \<Rightarrow> string" where
  "os_path_join a b =
     (if startswith b ''/'' then b
      else if a = [] \<or> endswith a ''/'' then a @ b
      else a @ ''/'' @ b)"

text \<open>
  \<^verbatim>\<open>os.path.dirname(p)\<close>: everything up to the last slash, without trailing slashes
  unless it consists of slashes only.
\<close>

definition os_path_dirname :: "string \<Rightarrow> string" where
  "os_path_dirname p =
     (let head = rev (dropWhile (\<lambda>c. c \<noteq> slash) (rev p))
      in if head \<noteq> [] \<and> head \<noteq> replicate (length head) slash
         then rev (dropWhile (\<lambda>c. c = slash) (rev head))
         else head)"

text \<open>\<^verbatim>\<open>os.path.basename(p)\<close>: what follows the last slash.\<close>

definition os_path_basename :: "string \<Rightarrow> string" where
  "os_path_basename p = rev (takeWhile (\<lambda>c. c \<noteq> slash) (rev p))"

text \<open>
  One round of the loop of \<^verbatim>\<open>os.path.normpath\<close> over the components:
  empty and \<^verbatim>\<open>.\<close> components are skipped, \<^verbatim>\<open>..\<close> removes the component before it
  when there is one to remove.
\<close>

definition normpath_step :: "nat \<Rightarrow> string list \<Rightarrow> string \<Rightarrow> string list" where
  "normpath_step initial_slashes new_comps component =
     (if component = [] \<or> component = ''.'' then new_comps
      else if component = ''..'' then
        (if (initial_slashes = 0 \<and> new_comps = []) \<or>
            (new_comps \<noteq> [] \<and> last new_comps = ''..'')
         then new_comps @ [component]
         else if new_comps \<noteq> [] then butlast new_comps
         else new_comps)
      else new_comps @ [component])"

definition os_path_normpath :: "string \<Rightarrow> string" where
  "os_path_normpath path =
     (if path = [] then ''.''
      else
        let initial_slashes =
              (if startswith path ''/''
               then (if startswith path ''//'' \<and> \<not> startswith path ''///'' then 2 else 1)
               else (0::nat));
            comps = foldl (normpath_step initial_slashes) [] (split_sep path);
            p = replicate initial_slashes slash @ join_sep comps
        in if p = [] then ''.'' else p)"

subsection \<open>The file system\<close>

text \<open>
  A file system is the working directory of the process and a finite table from
  normalised absolute paths to what is there. Paths are resolved lexically (there are no
  symbolic links): a path names the entry stored under its \<^verbatim>\<open>os.path.abspath\<close>.
  A path is therefore taken for its normalised form even where the operating system would
  not: one that steps back with \<^verbatim>\<open>..\<close> out of a directory that is missing, or one that
  starts with two slashes.
\<close>

datatype entry = File string | Directory

record filesystem =
  cwd :: string
  entries :: "(string \<times> entry) list"

text \<open>\<^verbatim>\<open>os.path.abspath(path)\<close>, with \<^verbatim>\<open>os.getcwd()\<close> read from the file system.\<close>

definition os_path_abspath :: "filesystem \<Rightarrow> string \<Rightarrow> string" where
  "os_path_abspath fs path =
     os_path_normpath (if startswith path ''/'' then path else os_path_join (cwd fs) path)"

definition lookup :: "filesystem \<Rightarrow> string \<Rightarrow> entry option" where
  "lookup fs path = (if path = [] then None else map_of (entries fs) (os_path_abspath fs path))"

text \<open>\<^verbatim>\<open>os.path.exists(path)\<close>: false for the empty path and for a path with no entry.\<close>

definition os_path_exists :: "filesystem \<Rightarrow> string \<Rightarrow> bool" where
  "os_path_exists fs path = (lookup fs path \<noteq> None)"

text \<open>
  The exceptions of the operating system that the resolver can meet. \<^verbatim>\<open>open\<close> raises the
  first on a missing file and the second on a directory; \<^verbatim>\<open>os.listdir\<close> raises the third
  on a path that is a regular file.
\<close>

datatype error =
    FileNotFoundError string
  | IsADirectoryError string
  | NotADirectoryError string

text \<open>\<^verbatim>\<open>str(e)\<close> for these exceptions (the file name printed without escapes).\<close>

fun str_error :: "error \<Rightarrow> string" where
  "str_error (FileNotFoundError p) = ''[Errno 2] No such file or directory: '' @ [CHR 0x27] @ p @ [CHR 0x27]"
| "str_error (IsADirectoryError p) = ''[Errno 21] Is a directory: '' @ [CHR 0x27] @ p @ [CHR 0x27]"
| "str_error (NotADirectoryError p) = ''[Errno 20] Not a directory: '' @ [CHR 0x27] @ p @ [CHR 0x27]"

text \<open>\<^verbatim>\<open>with open(path, 'r', ...) as f: content = f.read()\<close>\<close>

definition read_file :: "filesystem \<Rightarrow> string \<Rightarrow> error + string" where
  "read_file fs path =
     (case lookup fs path of
        None \<Rightarrow> Inl (FileNotFoundError path)
      | Some Directory \<Rightarrow> Inl (IsADirectoryError path)
      | Some (File content) \<Rightarrow> Inr content)"

text \<open>
  \<^verbatim>\<open>os.listdir(path)\<close>: the names of the entries whose parent directory is \<^verbatim>\<open>path\<close>, in the
  order of the table (Python leaves the order open).
\<close>

definition os_listdir :: "filesystem \<Rightarrow> string \<Rightarrow> error + string list" where
  "os_listdir fs path =
     (case lookup fs path of
        None \<Rightarrow> Inl (FileNotFoundError path)
      | Some (File content) \<Rightarrow> Inl (NotADirectoryError path)
      | Some Directory \<Rightarrow>
          Inr (map os_path_basename
                 (filter (\<lambda>k. os_path_dirname k = os_path_abspath fs path \<and> k \<noteq> os_path_abspath fs path)
                    (map fst (entries fs)))))"

subsection \<open>The directive patterns\<close>

text \<open>
  A match object of \<^verbatim>\<open>re.finditer\<close>: \<^verbatim>\<open>match.start()\<close>, \<^verbatim>\<open>match.end()\<close>, \<^verbatim>\<open>match.group(0)\<close>
  and \<^verbatim>\<open>match.group(1)\<close>.
\<close>

record rmatch =
  m_start :: nat
  m_end :: nat
  group0 :: string
  group1 :: string

text \<open>
  The four patterns differ in the command name only: a backslash, the name, an opening
  brace, \<^verbatim>\<open>([^}]+)\<close> and a closing brace. The list keeps the order of the source.
\<close>

definition patterns :: "string list" where
  "patterns = [''input'', ''include'', ''subfile'', ''InputIfFileExists'']"

text \<open>
  The pattern of command \<open>name\<close> tried at the start of \<open>s\<close>. The greedy class takes every
  character up to the first closing brace; the match needs at least one such character
  and the brace after them. The result is group 1.
\<close>

definition match_directive_at :: "string \<Rightarrow> string \<Rightarrow> string option" where
  "match_directive_at name s =
     (let opening = backslash # name @ ''{''
      in if startswith s opening then
           (let rest = drop (length opening) s;
                arg = takeWhile (\<lambda>c. c \<noteq> rbrace) rest
            in if arg \<noteq> [] \<and> length arg < length rest then Some arg else None)
         else None)"

text \<open>
  \<^verbatim>\<open>list(re.finditer(pattern, content))\<close>, scanning \<open>s\<close>, the text from offset \<open>pos\<close> on:
  the leftmost match is taken and the scan goes on behind it.
\<close>

function finditer_from :: "string \<Rightarrow> nat \<Rightarrow> string \<Rightarrow> rmatch list" where
  "finditer_from name pos s =
     (if s = [] then []
      else (case match_directive_at name s of
              None \<Rightarrow> finditer_from name (pos + 1) (tl s)
            | Some arg \<Rightarrow>
                (let n = length name + length arg + 3
                 in \<lparr>m_start = pos, m_end = pos + n, group0 = take n s, group1 = arg\<rparr>
                    # finditer_from name (pos + n) (drop n s))))"
  by pat_completeness auto
termination
  by (relation "measure (\<lambda>(name, pos, s). length s)") auto

definition finditer :: "string \<Rightarrow> string \<Rightarrow> rmatch list" where
  "finditer name content = finditer_from name 0 content"

subsection \<open>The structural patterns\<close>

text \<open>
  \<^verbatim>\<open>re.sub(lit + '.*?\n', '', s)\<close> for a literal \<open>lit\<close>: the dot does not match a newline,
  so a match is the literal and the rest of its line with the newline that ends it; where
  no newline follows there is no match.
\<close>

function re_sub_line :: "string \<Rightarrow> string \<Rightarrow> string" where
  "re_sub_line lit s =
     (if s = [] then []
      else if startswith s lit \<and> newline \<in> set (drop (length lit) s)
      then re_sub_line lit (tl (dropWhile (\<lambda>c. c \<noteq> newline) (drop (length lit) s)))
      else hd s # re_sub_line lit (tl s))"
  by pat_completeness auto
termination
proof (relation "measure (\<lambda>(lit, s). length s)")
  fix lit s :: string
  assume s: "s \<noteq> []" and "startswith s lit \<and> newline \<in> set (drop (length lit) s)"
  then have ne: "dropWhile (\<lambda>c. c \<noteq> newline) (drop (length lit) s) \<noteq> []"
    by auto
  have "length (dropWhile (\<lambda>c. c \<noteq> newline) (drop (length lit) s)) \<le> length s"
    by (rule order_trans [OF length_dropWhile_le]) simp
  with ne have "length (tl (dropWhile (\<lambda>c. c \<noteq> newline) (drop (length lit) s))) < length s"
    by (cases "dropWhile (\<lambda>c. c \<noteq> newline) (drop (length lit) s)") auto
  then show "((lit, tl (dropWhile (\<lambda>c. c \<noteq> newline) (drop (length lit) s))), (lit, s))
      \<in> measure (\<lambda>(lit, s). length s)"
    by simp
qed auto

text \<open>The six substitutions, in the order of the source.\<close>

definition strip_structure :: "string \<Rightarrow> string" where
  "strip_structure s =
     re_sub_line (backslash # ''tableofcontents'')
       (re_sub_line (backslash # ''maketitle'')
          (re_sub_line (backslash # ''end{document}'')
             (re_sub_line (backslash # ''begin{document}'')
                (re_sub_line (backslash # ''usepackage'')
                   (re_sub_line (backslash # ''documentclass'') s)))))"

definition begin_marker :: "string \<Rightarrow> string" where
  "begin_marker filename = newline # ''% ========== Included from: '' @ filename @ '' =========='' @ [newline]"

definition end_marker :: "string \<Rightarrow> string" where
  "end_marker filename = newline # ''% ========== End of: '' @ filename @ '' =========='' @ [newline]"

text \<open>
  The clean-up of the text an included file resolved to: nothing is done to the main
  file; any other text loses its structural lines, is stripped, and is put between the
  two marker comments unless nothing is left.
\<close>

definition clean_included :: "filesystem \<Rightarrow> string \<Rightarrow> string \<Rightarrow> string \<Rightarrow> string \<Rightarrow> string" where
  "clean_included fs main_path included_path filename included_content =
     (if os_path_abspath fs included_path \<noteq> os_path_abspath fs main_path then
        (let stripped = str_strip (strip_structure included_content)
         in if stripped \<noteq> [] then begin_marker filename @ stripped @ end_marker filename
            else stripped)
      else included_content)"

subsection \<open>One directive\<close>

text \<open>\<^verbatim>\<open>filename = match.group(1).strip()\<close>, then \<^verbatim>\<open>.tex\<close> appended unless it is the ending.\<close>

definition target_filename :: "string \<Rightarrow> string" where
  "target_filename arg =
     (let filename = str_strip arg
      in if \<not> endswith filename ''.tex'' then filename @ ''.tex'' else filename)"

text \<open>
  The path the directive names: below the base folder when the file name has a slash or
  a backslash; otherwise beside the current file when that path exists, and below the base
  folder when it does not. The result is normalised.
\<close>

definition resolve_included_path :: "filesystem \<Rightarrow> string \<Rightarrow> string \<Rightarrow> string \<Rightarrow> string" where
  "resolve_included_path fs base_folder tex_file_path filename =
     os_path_normpath
       (if slash \<in> set filename \<or> backslash \<in> set filename
        then os_path_join base_folder (replace_backslash filename)
        else
          (let current_dir = os_path_dirname tex_file_path;
               included_path = os_path_join current_dir filename
           in if \<not> os_path_exists fs included_path
              then os_path_join base_folder filename
              else included_path))"

text \<open>
  The \<^verbatim>\<open>else\<close> branch of a directive whose file does not exist: two lines are printed,
  then the \<^verbatim>\<open>.tex\<close> files of the directory searched when that directory exists and has
  some. \<^verbatim>\<open>os.listdir\<close> is not guarded, so its exception leaves the resolver; the result is
  that exception, if any, and the lines printed before it.
\<close>

definition report_missing :: "filesystem \<Rightarrow> string \<Rightarrow> string \<Rightarrow> error option \<times> string list" where
  "report_missing fs filename included_path =
     (let printed = [''Warning: Included file not found: '' @ filename,
                     ''  Searched at: '' @ included_path];
          search_dir = os_path_dirname included_path
      in if os_path_exists fs search_dir then
           (case os_listdir fs search_dir of
              Inl e \<Rightarrow> (Some e, printed)
            | Inr names \<Rightarrow>
                (let available_files = filter (\<lambda>f. endswith f ''.tex'') names
                 in if available_files \<noteq> []
                    then (None, printed @ [''  Available .tex files in '' @ search_dir @ '': ''
                                             @ join_comma available_files])
                    else (None, printed)))
         else (None, printed))"

text \<open>
  What a call returns: the text, or the exception that left it, and the lines it printed.
\<close>

type_synonym outcome = "(error + string) \<times> string list"

text \<open>\<^verbatim>\<open>result_content[:start_pos] + included_content + result_content[end_pos:]\<close>\<close>

definition splice_at :: "string \<Rightarrow> nat \<Rightarrow> nat \<Rightarrow> string \<Rightarrow> string" where
  "splice_at result_content start_pos end_pos included_content =
     take start_pos result_content @ included_content @ drop end_pos result_content"

text \<open>
  The body of the inner loop for one match. \<open>recurse\<close> is the recursive call on the
  included path, with the copy of the set of processed files. The state of the loop is
  the text so far and the lines printed; once an exception is raised no later round
  runs.
\<close>

definition process_match ::
  "filesystem \<Rightarrow> string \<Rightarrow> string \<Rightarrow> string \<Rightarrow> (string \<Rightarrow> outcome) \<Rightarrow> rmatch \<Rightarrow> outcome \<Rightarrow> outcome" where
  "process_match fs main_path base_folder tex_file_path recurse m state =
     (case state of
        (Inl e, printed) \<Rightarrow> (Inl e, printed)
      | (Inr result_content, printed) \<Rightarrow>
          (let filename = target_filename (group1 m);
               included_path = resolve_included_path fs base_folder tex_file_path filename
           in if os_path_exists fs included_path then
                (let line = ''Processing include: '' @ filename @ '' -> '' @ included_path
                 in case recurse included_path of
                      (Inl e, inner) \<Rightarrow> (Inl e, printed @ line # inner)
                    | (Inr included_content, inner) \<Rightarrow>
                        (Inr (splice_at result_content (m_start m) (m_end m)
                                (clean_included fs main_path included_path filename included_content)),
                         printed @ line # inner))
              else
                (case report_missing fs filename included_path of
                   (Some e, lines) \<Rightarrow> (Inl e, printed @ lines)
                 | (None, lines) \<Rightarrow> (Inr result_content, printed @ lines))))"

lemma process_match_cong [fundef_cong]:
  assumes "fs = fs'" "main_path = main_path'" "base_folder = base_folder'"
    "tex_file_path = tex_file_path'" "m = m'" "state = state'"
    "\<And>p. os_path_exists fs' p \<Longrightarrow> recurse p = recurse' p"
  shows "process_match fs main_path base_folder tex_file_path recurse m state
       = process_match fs' main_path' base_folder' tex_file_path' recurse' m' state'"
  using assms by (auto simp: process_match_def Let_def split: prod.splits sum.splits)

subsection \<open>The resolver\<close>

text \<open>
  \<^verbatim>\<open>process_tex_recursively(tex_file_path, base_folder, processed_files)\<close>. The path of
  the main file is the variable \<^verbatim>\<open>main_path\<close> of the enclosing function. A path already
  processed on this branch gives the empty text; a file that cannot be read gives the
  empty text and a warning. Otherwise each pattern in turn is matched against the text
  as read, and its matches are handled from the last to the first, every one splicing
  into the result so far at the offsets it has in the text as read.
\<close>

function process_tex_recursively ::
  "filesystem \<Rightarrow> string \<Rightarrow> string \<Rightarrow> string \<Rightarrow> string set \<Rightarrow> outcome" where
  "process_tex_recursively fs main_path base_folder tex_file_path processed_files =
     (let abs_path = os_path_abspath fs tex_file_path
      in if abs_path \<in> processed_files then (Inr [], [])
         else
           (case read_file fs tex_file_path of
              Inl e \<Rightarrow>
                (Inr [], [''Warning: Could not read '' @ tex_file_path @ '': '' @ str_error e])
            | Inr content \<Rightarrow>
                fold (\<lambda>name state.
                        fold (process_match fs main_path base_folder tex_file_path
                                (\<lambda>included_path.
                                   process_tex_recursively fs main_path base_folder included_path
                                     (insert abs_path processed_files)))
                          (rev (finditer name content)) state)
                  patterns (Inr content, [])))"
  by pat_completeness auto


text \<open>
  Termination: a recursive call is made only after the current file has been read, so
  its absolute path is an entry of the table, and only when that path was not yet in the
  set. Each call therefore adds an entry to the set, and the table is finite.
\<close>

lemma read_file_key:
  "read_file fs p = Inr c \<Longrightarrow> os_path_abspath fs p \<in> fst ` set (entries fs)"
  by (auto simp: read_file_def lookup_def
      split: option.splits entry.splits if_splits dest: map_of_SomeD intro: rev_image_eqI)

lemma card_unprocessed_less:
  assumes "read_file fs p = Inr c" "os_path_abspath fs p \<notin> processed_files"
  shows "card (fst ` set (entries fs) - insert (os_path_abspath fs p) processed_files)
       < card (fst ` set (entries fs) - processed_files)"
proof (rule psubset_card_mono)
  show "finite (fst ` set (entries fs) - processed_files)" by simp
  from assms read_file_key [OF assms(1)]
  show "fst ` set (entries fs) - insert (os_path_abspath fs p) processed_files
      \<subset> fst ` set (entries fs) - processed_files"
    by blast
qed

termination process_tex_recursively
  by (relation "measure (\<lambda>(fs, main_path, base_folder, tex_file_path, processed_files).
          card (fst ` set (entries fs) - processed_files))")
     (simp_all add: card_unprocessed_less)

declare process_tex_recursively.simps [simp del]

text \<open>
  The call of \<^verbatim>\<open>create_combined_tex\<close>:
  \<^verbatim>\<open>process_tex_recursively(main_path, folder_path)\<close> with
  \<^verbatim>\<open>main_path = os.path.join(folder_path, main_tex_file)\<close>.
\<close>

definition resolve :: "filesystem \<Rightarrow> string \<Rightarrow> string \<Rightarrow> outcome" where
  "resolve fs folder_path main_tex_file =
     process_tex_recursively fs (os_path_join folder_path main_tex_file) folder_path
       (os_path_join folder_path main_tex_file) {}"

text \<open>The text of an outcome (empty when an exception was raised).\<close>

definition text_of :: "outcome \<Rightarrow> string" where
  "text_of r = (case fst r of Inl e \<Rightarrow> [] | Inr t \<Rightarrow> t)"

subsection \<open>The one list of the specification\<close>

text \<open>
  Following the words of the specification, not the source: the matches of all four
  kinds are collected into one list and handled in descending order of start offset.
  The rounds themselves are those of the source.
\<close>

definition matches_descending :: "string \<Rightarrow> rmatch list" where
  "matches_descending content =
     rev (sort_key m_start (concat (map (\<lambda>name. finditer name content) patterns)))"

definition splice_descending ::
  "filesystem \<Rightarrow> string \<Rightarrow> string \<Rightarrow> string \<Rightarrow> (string \<Rightarrow> outcome) \<Rightarrow> string \<Rightarrow> outcome" where
  "splice_descending fs main_path base_folder tex_file_path recurse content =
     fold (process_match fs main_path base_folder tex_file_path recurse)
       (matches_descending content) (Inr content, [])"

subsection \<open>File systems used as examples\<close>

text \<open>A main file with an \<^verbatim>\<open>\input\<close> followed by an \<^verbatim>\<open>\include\<close>.\<close>

definition mixed_main :: string where
  "mixed_main = backslash # ''input{a} X '' @ backslash # ''include{b} Y''"

definition fs_mixed :: filesystem where
  "fs_mixed = \<lparr>cwd = ''/p'', entries =
     [(''/p'', Directory), (''/p/main.tex'', File mixed_main),
      (''/p/a.tex'', File ''AAAA''), (''/p/b.tex'', File ''B'')]\<rparr>"

text \<open>An included file that is a document of its own and ends without a newline.\<close>

definition fs_eof :: filesystem where
  "fs_eof = \<lparr>cwd = ''/p'', entries =
     [(''/p'', Directory), (''/p/main.tex'', File (backslash # ''input{b}'')),
      (''/p/b.tex'',
       File (backslash # ''documentclass{article}'' @ newline # backslash # ''begin{document}''
             @ newline # ''Hello'' @ newline # backslash # ''end{document}''))]\<rparr>"

text \<open>A directive whose path runs through a regular file.\<close>

definition fs_notdir :: filesystem where
  "fs_notdir = \<lparr>cwd = ''/p'', entries =
     [(''/p'', Directory),
      (''/p/main.tex'', File (backslash # ''input{a} '' @ backslash # ''input{main.tex/x}'')),
      (''/p/a.tex'', File ''AAAA'')]\<rparr>"

text \<open>Two files that include each other.\<close>

definition fs_cycle :: filesystem where
  "fs_cycle = \<lparr>cwd = ''/p'', entries =
     [(''/p'', Directory),
      (''/p/a.tex'', File (''A1 '' @ backslash # ''input{b} A2'')),
      (''/p/b.tex'', File (''B1 '' @ backslash # ''input{a} B2''))]\<rparr>"

text \<open>The same file name beside the including file and in the base folder.\<close>

definition fs_precedence :: filesystem where
  "fs_precedence = \<lparr>cwd = ''/base'', entries =
     [(''/base'', Directory), (''/base/dir'', Directory),
      (''/base/main.tex'', File (backslash # ''input{dir/a}'')),
      (''/base/dir/a.tex'', File (backslash # ''input{b}'')),
      (''/base/dir/b.tex'', File ''near''),
      (''/base/b.tex'', File ''far'')]\<rparr>"


text \<open>A missing file, a directive with an empty argument and a file that exists.\<close>

definition fs_missing :: filesystem where
  "fs_missing = \<lparr>cwd = ''/p'', entries =
     [(''/p'', Directory),
      (''/p/main.tex'',
       File (''a '' @ backslash # ''input{missing} b '' @ backslash # ''input{}'' @ '' c ''
             @ backslash # ''input{d}'')),
      (''/p/d.tex'', File ''D'')]\<rparr>"

text \<open>
  A preamble file that resolves to the empty text, followed by a directive of another
  kind and a directive with an empty argument.
\<close>

definition fs_overwrite :: filesystem where
  "fs_overwrite = \<lparr>cwd = ''/p'', entries =
     [(''/p'', Directory),
      (''/p/main.tex'',
       File (backslash # ''input{preamble}'' @ backslash # ''include{b}'' @ backslash # ''input{}'')),
      (''/p/preamble.tex'', File (backslash # ''usepackage{amsmath}'' @ [newline])),
      (''/p/b.tex'', File ''B'')]\<rparr>"

text \<open>The number of offsets of a text at which \<open>sub\<close> stands.\<close>

fun occurrences :: "string \<Rightarrow> string \<Rightarrow> nat" where
  "occurrences sub [] = 0"
| "occurrences sub (c # cs) = (if prefix sub (c # cs) then 1 else 0) + occurrences sub cs"

section \<open>Properties\<close>

subsection \<open>Auxiliary facts\<close>

lemma processed_path_gives_empty:
  "os_path_abspath fs tex_file_path \<in> processed_files \<Longrightarrow>
   process_tex_recursively fs main_path base_folder tex_file_path processed_files = (Inr [], [])"
  by (subst process_tex_recursively.simps) simp

lemma set_dropWhile_keeps:
  "\<not> P x \<Longrightarrow> x \<in> set (dropWhile P xs) \<longleftrightarrow> x \<in> set xs"
  by (induction xs) auto

lemma set_str_strip_keeps:
  "\<not> is_space x \<Longrightarrow> x \<in> set (str_strip s) \<longleftrightarrow> x \<in> set s"
  by (simp add: str_strip_def set_dropWhile_keeps)

lemma slash_no_space: "\<not> is_space slash" "\<not> is_space backslash"
  by (simp_all add: is_space_def)

lemma separator_in_target_filename:
  "slash \<in> set (target_filename arg) \<longleftrightarrow> slash \<in> set arg"
  "backslash \<in> set (target_filename arg) \<longleftrightarrow> backslash \<in> set arg"
  by (simp_all add: target_filename_def Let_def set_str_strip_keeps slash_no_space)

lemma finditer_from_match:
  "m \<in> set (finditer_from name pos s) \<Longrightarrow>
     pos \<le> m_start m \<and> match_directive_at name (drop (m_start m - pos) s) = Some (group1 m)"
proof (induction name pos s rule: finditer_from.induct)
  case (1 name pos s)
  show ?case
  proof (cases "s = []")
    case True
    with "1.prems" show ?thesis by (simp add: finditer_from.simps [of name pos s])
  next
    case ne: False
    show ?thesis
    proof (cases "match_directive_at name s")
      case None
      with ne "1.prems" have "m \<in> set (finditer_from name (pos + 1) (tl s))"
        by (simp add: finditer_from.simps [of name pos s])
      from "1.IH"(1) [OF ne None this]
      have le: "pos + 1 \<le> m_start m"
        and at: "match_directive_at name (drop (m_start m - (pos + 1)) (tl s)) = Some (group1 m)"
        by simp_all
      from le obtain k where k: "m_start m - pos = Suc k" "m_start m - (pos + 1) = k"
        by (cases "m_start m - pos") auto
      have "drop (m_start m - (pos + 1)) (tl s) = drop (m_start m - pos) s"
        by (simp only: k drop_Suc)
      with le at show ?thesis by simp
    next
      case (Some arg)
      define n where "n = length name + length arg + 3"
      from ne Some "1.prems"
      have "m = \<lparr>m_start = pos, m_end = pos + n, group0 = take n s, group1 = arg\<rparr>
          \<or> m \<in> set (finditer_from name (pos + n) (drop n s))"
        by (simp add: finditer_from.simps [of name pos s] n_def Let_def)
      then show ?thesis
      proof
        assume "m = \<lparr>m_start = pos, m_end = pos + n, group0 = take n s, group1 = arg\<rparr>"
        with Some show ?thesis by simp
      next
        assume "m \<in> set (finditer_from name (pos + n) (drop n s))"
        from "1.IH"(2) [OF ne Some n_def this]
        have le: "pos + n \<le> m_start m"
          and at: "match_directive_at name (drop (m_start m - (pos + n)) (drop n s)) = Some (group1 m)"
          by blast+
        from le have "m_start m - (pos + n) + n = m_start m - pos" by simp
        then have "drop (m_start m - (pos + n)) (drop n s) = drop (m_start m - pos) s"
          by (simp only: drop_drop)
        with le at show ?thesis by simp
      qed
    qed
  qed
qed

lemma match_directive_at_Some:
  assumes "match_directive_at name s = Some arg"
  shows "arg \<noteq> [] \<and> rbrace \<notin> set arg \<and> prefix (backslash # name @ ''{'' @ arg @ ''}'') s"
proof -
  define opn where "opn = backslash # name @ ''{''"
  define rest where "rest = drop (length opn) s"
  from assms have pre: "prefix opn s"
    and arg: "arg = takeWhile (\<lambda>c. c \<noteq> rbrace) rest"
    and ne: "arg \<noteq> []" and len: "length arg < length rest"
    by (auto simp: match_directive_at_def startswith_def Let_def opn_def rest_def
        split: if_splits)
  from arg have nob: "rbrace \<notin> set arg"
    by (auto dest: set_takeWhileD)
  from pre have s: "s = opn @ rest"
    by (auto simp: rest_def prefix_def)
  have rest: "rest = arg @ dropWhile (\<lambda>c. c \<noteq> rbrace) rest"
    by (simp add: arg)
  from len arg have dne: "dropWhile (\<lambda>c. c \<noteq> rbrace) rest \<noteq> []"
    by (metis rest append_Nil2 less_irrefl)
  then have "hd (dropWhile (\<lambda>c. c \<noteq> rbrace) rest) = rbrace"
    using hd_dropWhile [of "\<lambda>c. c \<noteq> rbrace" rest] by simp
  with dne obtain tl' where "dropWhile (\<lambda>c. c \<noteq> rbrace) rest = rbrace # tl'"
    by (cases "dropWhile (\<lambda>c. c \<noteq> rbrace) rest") auto
  with rest have "rest = arg @ rbrace # tl'" by simp
  with s have "s = (backslash # name @ ''{'' @ arg @ ''}'') @ tl'"
    by (simp add: opn_def)
  then have "prefix (backslash # name @ ''{'' @ arg @ ''}'') s"
    by (metis prefixI)
  with ne nob show ?thesis by simp
qed

lemma finditer_match:
  "m \<in> set (finditer name content) \<Longrightarrow>
     group1 m \<noteq> [] \<and> rbrace \<notin> set (group1 m) \<and>
     prefix (backslash # name @ ''{'' @ group1 m @ ''}'') (drop (m_start m) content)"
  using finditer_from_match [of m name 0 content] match_directive_at_Some
  by (simp add: finditer_def)

lemma no_match_at_empty_argument:
  "match_directive_at name (backslash # name @ ''{}'' @ post) = None"
  by (simp add: match_directive_at_def startswith_def Let_def)

lemma no_directive_fragment_verbatim:
  assumes "os_path_abspath fs tex_file_path \<notin> processed_files"
    and "read_file fs tex_file_path = Inr content"
    and "\<forall>name \<in> set patterns. finditer name content = []"
  shows "process_tex_recursively fs main_path base_folder tex_file_path processed_files
       = (Inr content, [])"
  using assms
  by (subst process_tex_recursively.simps) (simp add: patterns_def Let_def)

lemma dropWhile_hd_id: "xs \<noteq> [] \<Longrightarrow> \<not> P (hd xs) \<Longrightarrow> dropWhile P (xs @ ys) = xs @ ys"
  by (cases xs) auto

lemma str_strip_keeps_ending:
  assumes "suf \<noteq> []" "\<not> is_space (hd suf)" "\<not> is_space (last suf)" "endswith s suf"
  shows "endswith (str_strip s) suf"
proof -
  from assms(4) obtain pre where s: "s = pre @ suf"
    by (metis endswith_def prefix_def rev_append rev_rev_ident)
  obtain pre' where d: "dropWhile is_space s = pre' @ suf"
    using assms(1,2) unfolding s
    by (cases "\<forall>x\<in>set pre. is_space x") (auto simp: dropWhile_append dropWhile_hd_id [where ys = "[]", simplified])
  have "rev suf \<noteq> []" "\<not> is_space (hd (rev suf))"
    using assms(1,3) by (simp_all add: hd_rev)
  then have "dropWhile is_space (rev suf @ rev pre') = rev suf @ rev pre'"
    by (rule dropWhile_hd_id)
  then have "str_strip s = pre' @ suf"
    by (simp add: str_strip_def d)
  then show ?thesis by (simp add: endswith_def)
qed

lemma tex_ending_survives_strip:
  "endswith arg ''.tex'' \<Longrightarrow> endswith (str_strip arg) ''.tex''"
  by (rule str_strip_keeps_ending) (simp_all add: is_space_def)

lemma endswith_append: "endswith (s @ suf) suf"
  by (simp add: endswith_def)

lemma str_strip_fixed:
  assumes "str_strip a = a" "a \<noteq> []"
  shows "\<not> is_space (hd a)"
proof
  assume sp: "is_space (hd a)"
  from assms(2) sp have "length (dropWhile is_space a) < length a"
    by (cases a) (auto simp: le_imp_less_Suc length_dropWhile_le)
  moreover have "length (str_strip a) \<le> length (dropWhile is_space a)"
    unfolding str_strip_def
    by (metis length_dropWhile_le length_rev)
  ultimately show False using assms(1) by simp
qed

lemma str_strip_tex_appended:
  assumes "str_strip a = a"
  shows "str_strip (a @ ''.tex'') = a @ ''.tex''"
proof (cases "a = []")
  case True
  then show ?thesis by (simp add: str_strip_def is_space_def)
next
  case False
  with assms have "\<not> is_space (hd a)" by (rule str_strip_fixed)
  with False have "dropWhile is_space (a @ ''.tex'') = a @ ''.tex''"
    by (rule dropWhile_hd_id)
  then show ?thesis by (simp add: str_strip_def is_space_def)
qed

lemma process_match_group1:
  "target_filename (group1 m') = target_filename (group1 m) \<Longrightarrow> m_start m' = m_start m \<Longrightarrow> m_end m' = m_end m \<Longrightarrow>
   process_match fs main_path base_folder tex_file_path recurse m' state
   = process_match fs main_path base_folder tex_file_path recurse m state"
  by (auto simp: process_match_def Let_def split: prod.splits sum.splits option.splits)

lemma clean_included_empty:
  "clean_included fs main_path included_path filename [] = []"
  by (simp add: clean_included_def strip_structure_def str_strip_def re_sub_line.simps [of _ "[]"])

text \<open>
  What the branch for a missing file prints and when it raises: the two warning lines
  always come first, and the exception is raised exactly when the directory searched is
  a regular file.
\<close>

lemma report_missing_lines:
  "snd (report_missing fs filename included_path)
     = [''Warning: Included file not found: '' @ filename, ''  Searched at: '' @ included_path]
       @ drop 2 (snd (report_missing fs filename included_path))"
  by (simp add: report_missing_def Let_def split: sum.splits)

lemma report_missing_raises:
  "fst (report_missing fs filename included_path) =
     (case lookup fs (os_path_dirname included_path) of
        Some (File content) \<Rightarrow> Some (NotADirectoryError (os_path_dirname included_path))
      | _ \<Rightarrow> None)"
  by (simp add: report_missing_def os_path_exists_def os_listdir_def Let_def
      split: option.splits entry.splits)

lemma missing_target_keeps_text:
  assumes "included_path = resolve_included_path fs base_folder tex_file_path (target_filename (group1 m))"
    and "\<not> os_path_exists fs included_path"
    and "report_missing fs (target_filename (group1 m)) included_path = (None, lines)"
  shows "process_match fs main_path base_folder tex_file_path recurse m (Inr result_content, printed)
       = (Inr result_content, printed @ lines)"
  using assms by (simp add: process_match_def Let_def)

text \<open>
  The call on a file that is read: one round per match of every kind, and every recursive
  call is given the set of the caller with the caller's own path added.
\<close>

lemma process_tex_recursively_rounds:
  assumes "os_path_abspath fs tex_file_path \<notin> processed_files"
    and "read_file fs tex_file_path = Inr content"
  shows "process_tex_recursively fs main_path base_folder tex_file_path processed_files
       = fold (\<lambda>name state.
                 fold (process_match fs main_path base_folder tex_file_path
                         (\<lambda>p. process_tex_recursively fs main_path base_folder p
                                (insert (os_path_abspath fs tex_file_path) processed_files)))
                   (rev (finditer name content)) state)
           patterns (Inr content, [])"
  using assms by (subst process_tex_recursively.simps) (simp add: Let_def)

subsection \<open>Splicing by offset\<close>

text \<open>
  Claim C1: the matches of all four kinds are spliced in descending order of start
  offset, so that the text a fragment contributes is its own text with every directive
  replaced in place.

  The source runs one pass per kind, each pass from its last match to its first, and
  every pass takes its offsets from the text as read. In \<open>fs_mixed\<close> the main file is
  \<^verbatim>\<open>\input{a} X \include{b} Y\<close>. The pass for \<^verbatim>\<open>\input\<close> replaces offsets 0 to 9; the pass
  for \<^verbatim>\<open>\include\<close> then replaces offsets 12 to 23 of the text so changed, which lie inside
  the marker comment of \<^verbatim>\<open>a.tex\<close>, and the directive \<^verbatim>\<open>\include{b}\<close> stays in the output.
  The one list of the specification gives the text with both directives replaced in
  place.
\<close>

theorem offsets_stale_across_kinds:
  "resolve fs_mixed ''/p'' ''main.tex'' =
     (Inr (newline # ''% ========='' @ begin_marker ''b.tex'' @ ''B'' @ end_marker ''b.tex''
           @ ''from: a.tex =========='' @ newline # ''AAAA'' @ end_marker ''a.tex''
           @ '' X '' @ backslash # ''include{b} Y''),
      [''Processing include: a.tex -> /p/a.tex'', ''Processing include: b.tex -> /p/b.tex''])
   \<and> fst (splice_descending fs_mixed ''/p/main.tex'' ''/p'' ''/p/main.tex''
            (\<lambda>p. process_tex_recursively fs_mixed ''/p/main.tex'' ''/p'' p {''/p/main.tex''})
            mixed_main)
     = Inr (begin_marker ''a.tex'' @ ''AAAA'' @ end_marker ''a.tex'' @ '' X ''
            @ begin_marker ''b.tex'' @ ''B'' @ end_marker ''b.tex'' @ '' Y'')"
  by code_simp

subsection \<open>Cycles\<close>

text \<open>
  Claim C2: on an inclusion graph with a cycle the resolver terminates, and the second
  occurrence of a path on a branch contributes the empty text; every recursive call
  receives a copy of the set of visited paths.

  \<open>process_tex_recursively\<close> is a total function: its termination is proved above for
  every file system, with or without cycles. For a file that is read, the call runs one
  round per match and hands every recursive call its own set with its own path added.
  So when a directive of that file names a file that exists and whose absolute path is
  the file's own or one already in the set, that is, a path that occurs a second time on
  the branch, the recursive call returns the empty text and prints nothing, and the
  round replaces the directive by the empty text.
\<close>

theorem cycle_round_splices_empty:
  assumes "os_path_abspath fs tex_file_path \<notin> processed_files"
    and "read_file fs tex_file_path = Inr content"
    and "included_path = resolve_included_path fs base_folder tex_file_path (target_filename (group1 m))"
    and "os_path_exists fs included_path"
    and "os_path_abspath fs included_path \<in> insert (os_path_abspath fs tex_file_path) processed_files"
  shows "process_tex_recursively fs main_path base_folder tex_file_path processed_files
       = fold (\<lambda>name state.
                 fold (process_match fs main_path base_folder tex_file_path
                         (\<lambda>p. process_tex_recursively fs main_path base_folder p
                                (insert (os_path_abspath fs tex_file_path) processed_files)))
                   (rev (finditer name content)) state)
           patterns (Inr content, [])
     \<and> process_tex_recursively fs main_path base_folder included_path
          (insert (os_path_abspath fs tex_file_path) processed_files) = (Inr [], [])
     \<and> process_match fs main_path base_folder tex_file_path
          (\<lambda>p. process_tex_recursively fs main_path base_folder p
                 (insert (os_path_abspath fs tex_file_path) processed_files))
          m (Inr result_content, printed)
       = (Inr (take (m_start m) result_content @ drop (m_end m) result_content),
          printed @ [''Processing include: '' @ target_filename (group1 m) @ '' -> '' @ included_path])"
proof -
  have guard: "process_tex_recursively fs main_path base_folder included_path
          (insert (os_path_abspath fs tex_file_path) processed_files) = (Inr [], [])"
    using assms(5) by (rule processed_path_gives_empty)
  have round: "process_match fs main_path base_folder tex_file_path
          (\<lambda>p. process_tex_recursively fs main_path base_folder p
                 (insert (os_path_abspath fs tex_file_path) processed_files))
          m (Inr result_content, printed)
       = (Inr (take (m_start m) result_content @ drop (m_end m) result_content),
          printed @ [''Processing include: '' @ target_filename (group1 m) @ '' -> '' @ included_path])"
    using assms(3,4) guard
    by (simp add: process_match_def Let_def clean_included_empty splice_at_def)
  from process_tex_recursively_rounds [OF assms(1,2)] guard round show ?thesis
    by blast
qed

theorem cycle_round_witness:
  "os_path_abspath fs_cycle ''/p/b.tex'' \<notin> insert (os_path_abspath fs_cycle ''/p/a.tex'') {}
   \<and> read_file fs_cycle ''/p/b.tex'' = Inr (''B1 '' @ backslash # ''input{a} B2'')
   \<and> \<lparr>m_start = 3, m_end = 12, group0 = backslash # ''input{a}'', group1 = ''a''\<rparr>
       \<in> set (finditer ''input'' (''B1 '' @ backslash # ''input{a} B2''))
   \<and> os_path_exists fs_cycle ''/p/a.tex''
   \<and> process_match fs_cycle ''/p/a.tex'' ''/p'' ''/p/b.tex''
        (\<lambda>p. process_tex_recursively fs_cycle ''/p/a.tex'' ''/p'' p
               (insert (os_path_abspath fs_cycle ''/p/b.tex'')
                  (insert (os_path_abspath fs_cycle ''/p/a.tex'') {})))
        \<lparr>m_start = 3, m_end = 12, group0 = backslash # ''input{a}'', group1 = ''a''\<rparr>
        (Inr (''B1 '' @ backslash # ''input{a} B2''), [])
     = (Inr ''B1  B2'', [''Processing include: a.tex -> /p/a.tex''])"
proof -
  let ?m = "\<lparr>m_start = 3, m_end = 12, group0 = backslash # ''input{a}'', group1 = ''a''\<rparr>"
  let ?content = "''B1 '' @ backslash # ''input{a} B2''"
  let ?set = "insert (os_path_abspath fs_cycle ''/p/a.tex'') {}"
  have h1: "os_path_abspath fs_cycle ''/p/b.tex'' \<notin> ?set"
    by code_simp
  have h2: "read_file fs_cycle ''/p/b.tex'' = Inr ?content"
    by code_simp
  have h3: "''/p/a.tex'' = resolve_included_path fs_cycle ''/p'' ''/p/b.tex'' (target_filename (group1 ?m))"
    by code_simp
  have h4: "os_path_exists fs_cycle ''/p/a.tex''"
    by code_simp
  have h5: "os_path_abspath fs_cycle ''/p/a.tex'' \<in> insert (os_path_abspath fs_cycle ''/p/b.tex'') ?set"
    by code_simp
  have m: "?m \<in> set (finditer ''input'' ?content)"
    by code_simp
  from cycle_round_splices_empty [OF h1 h2 h3 h4 h5, of "''/p/a.tex''" ?content "[]"]
  have "process_match fs_cycle ''/p/a.tex'' ''/p'' ''/p/b.tex''
        (\<lambda>p. process_tex_recursively fs_cycle ''/p/a.tex'' ''/p'' p
               (insert (os_path_abspath fs_cycle ''/p/b.tex'') ?set))
        ?m (Inr ?content, [])
     = (Inr (take (m_start ?m) ?content @ drop (m_end ?m) ?content),
        [] @ [''Processing include: '' @ target_filename (group1 ?m) @ '' -> '' @ ''/p/a.tex''])"
    by blast
  also have "\<dots> = (Inr ''B1  B2'', [''Processing include: a.tex -> /p/a.tex''])"
    by code_simp
  finally show ?thesis using h1 h2 h4 m by blast
qed

text \<open>The whole run on the two files that include each other.\<close>

lemma cycle_example:
  "resolve fs_cycle ''/p'' ''a.tex'' =
     (Inr (''A1 '' @ begin_marker ''b.tex'' @ ''B1  B2'' @ end_marker ''b.tex'' @ '' A2''),
      [''Processing include: b.tex -> /p/b.tex'', ''Processing include: a.tex -> /p/a.tex''])"
  by code_simp

subsection \<open>Where a directive points\<close>

text \<open>
  Claim C3: an argument without a path separator is looked up beside the current
  fragment first and below the base folder only if that path does not exist; an argument
  with a separator is resolved against the base folder.
\<close>

theorem path_resolution_precedence:
  "resolve_included_path fs base_folder tex_file_path (target_filename arg) =
     os_path_normpath
       (if slash \<in> set arg \<or> backslash \<in> set arg
        then os_path_join base_folder (replace_backslash (target_filename arg))
        else if os_path_exists fs (os_path_join (os_path_dirname tex_file_path) (target_filename arg))
        then os_path_join (os_path_dirname tex_file_path) (target_filename arg)
        else os_path_join base_folder (target_filename arg))"
  by (simp add: resolve_included_path_def Let_def separator_in_target_filename)

theorem path_resolution_witness:
  "os_path_exists fs_precedence ''/base/dir/b.tex'' \<and> os_path_exists fs_precedence ''/base/b.tex''
   \<and> resolve_included_path fs_precedence ''/base'' ''/base/dir/a.tex'' (target_filename ''b'')
     = ''/base/dir/b.tex''"
proof -
  have "os_path_normpath
       (if slash \<in> set ''b'' \<or> backslash \<in> set ''b''
        then os_path_join ''/base'' (replace_backslash (target_filename ''b''))
        else if os_path_exists fs_precedence
                  (os_path_join (os_path_dirname ''/base/dir/a.tex'') (target_filename ''b''))
        then os_path_join (os_path_dirname ''/base/dir/a.tex'') (target_filename ''b'')
        else os_path_join ''/base'' (target_filename ''b'')) = ''/base/dir/b.tex''"
    by code_simp
  moreover have "os_path_exists fs_precedence ''/base/dir/b.tex''"
    and "os_path_exists fs_precedence ''/base/b.tex''"
    by code_simp+
  ultimately show ?thesis
    using path_resolution_precedence [of fs_precedence "''/base''" "''/base/dir/a.tex''" "''b''"]
    by simp
qed

text \<open>The whole run: the text of \<^verbatim>\<open>dir/b.tex\<close> is the one spliced in.\<close>

lemma precedence_example:
  "text_of (resolve fs_precedence ''/base'' ''main.tex'') =
     begin_marker ''dir/a.tex'' @ ''% ========== Included from: b.tex =========='' @ newline #
       ''near'' @ newline # ''% ========== End of: b.tex =========='' @ end_marker ''dir/a.tex''"
  by code_simp

subsection \<open>Structural lines\<close>

text \<open>
  Claim C4: in a fragment other than the root every document-class, package, begin
  and end of document, title and table-of-contents line is removed.

  Each of the six patterns ends in a newline, so a structural command on the last line
  of a file that does not end in a newline is not matched. In \<open>fs_eof\<close> the included file
  is a document of its own whose last line is \<^verbatim>\<open>\end{document}\<close>: the first two lines are
  removed, the last one stays in the merged text.
\<close>

theorem end_document_kept_at_end_of_file:
  "resolve fs_eof ''/p'' ''main.tex'' =
     (Inr (begin_marker ''b.tex'' @ ''Hello'' @ newline # backslash # ''end{document}''
           @ end_marker ''b.tex''),
      [''Processing include: b.tex -> /p/b.tex''])"
  by code_simp

subsection \<open>Missing files\<close>

text \<open>
  Claim C5: a directive whose file is found nowhere stays in the text, a warning names
  the file and where it was looked for, and the other directives are still resolved.

  After the two warning lines the source lists the directory searched, when
  \<^verbatim>\<open>os.path.exists\<close> holds of it, with \<^verbatim>\<open>os.listdir\<close> outside any \<^verbatim>\<open>try\<close>. In \<open>fs_notdir\<close> the
  directive \<^verbatim>\<open>\input{main.tex/x}\<close> makes that directory the regular file \<^verbatim>\<open>/p/main.tex\<close>:
  \<^verbatim>\<open>os.listdir\<close> raises, the exception leaves the resolver, no text is returned and the
  directive \<^verbatim>\<open>\input{a}\<close> before it is never looked at.
\<close>

theorem listing_a_file_aborts_resolution:
  "resolve fs_notdir ''/p'' ''main.tex'' =
     (Inl (NotADirectoryError ''/p/main.tex''),
      [''Warning: Included file not found: main.tex/x.tex'',
       ''  Searched at: /p/main.tex/x.tex''])"
  by code_simp

text \<open>
  In the ordinary case, where the directory searched is a directory, the directive stays
  where it is and the warnings are printed; the directive with the empty argument is
  passed over in silence.
\<close>

lemma missing_example:
  "resolve fs_missing ''/p'' ''main.tex'' =
     (Inr (''a '' @ backslash # ''input{missing} b '' @ backslash # ''input{}'' @ '' c ''
           @ begin_marker ''d.tex'' @ ''D'' @ end_marker ''d.tex''),
      [''Processing include: d.tex -> /p/d.tex'',
       ''Warning: Included file not found: missing.tex'',
       ''  Searched at: /p/missing.tex'',
       ''  Available .tex files in /p: main.tex, d.tex''])"
  by code_simp

subsection \<open>Empty arguments\<close>

text \<open>
  A directive with an empty argument is not recognised: wherever the text \<^verbatim>\<open>\input{}\<close>
  (or that of another kind) stands in a fragment, no match of that kind starts there, and
  every match that is found has a non-empty argument.
\<close>

lemma empty_argument_never_recognised:
  assumes "m \<in> set (finditer name (pre @ backslash # name @ ''{}'' @ post))"
  shows "m_start m \<noteq> length pre \<and> group1 m \<noteq> []"
proof
  show "m_start m \<noteq> length pre"
  proof
    assume "m_start m = length pre"
    with finditer_from_match [of m name 0 "pre @ backslash # name @ ''{}'' @ post"] assms
    have "match_directive_at name (backslash # name @ ''{}'' @ post) = Some (group1 m)"
      by (simp add: finditer_def)
    with no_match_at_empty_argument [of name post] show False by simp
  qed
  from finditer_match [OF assms] show "group1 m \<noteq> []" by simp
qed

text \<open>
  Claim C9: a directive with an empty argument, such as \<^verbatim>\<open>\input{}\<close>, is never recognised,
  so that its text stays verbatim in the output and no diagnostic is printed for it.

  No round is run for such text and nothing is printed for it, but the rounds of other
  directives can remove it: the passes of the later kinds splice at offsets of the text
  as read. In \<open>fs_overwrite\<close> the main file is
  \<^verbatim>\<open>\input{preamble}\include{b}\input{}\<close> and the preamble holds one package line. The
  pass for \<^verbatim>\<open>\input\<close> replaces the first directive by the empty text; the pass for
  \<^verbatim>\<open>\include\<close> then replaces offsets 16 to 27 of the shortened text, where the last
  four characters of \<^verbatim>\<open>\input{}\<close> now stand, by the text of \<^verbatim>\<open>b.tex\<close>.
\<close>

theorem empty_argument_text_overwritten:
  "resolve fs_overwrite ''/p'' ''main.tex'' =
     (Inr (backslash # ''include{b}'' @ backslash # ''inpu''
           @ begin_marker ''b.tex'' @ ''B'' @ end_marker ''b.tex''),
      [''Processing include: preamble.tex -> /p/preamble.tex'',
       ''Processing include: b.tex -> /p/b.tex''])
   \<and> occurrences (backslash # ''input{}'') (text_of (resolve fs_overwrite ''/p'' ''main.tex'')) = 0"
  by code_simp

subsection \<open>Marker comments\<close>




subsection \<open>The file name of a directive\<close>

text \<open>
  Claim C7: the resolver appends \<^verbatim>\<open>.tex\<close> to every argument that lacks it, so that
  \<^verbatim>\<open>\include{sectionA}\<close> and \<^verbatim>\<open>\include{sectionA.tex}\<close> name the same file and expand alike.

  The source strips the argument before it looks at the ending. An argument that ends
  in white space after \<^verbatim>\<open>.tex\<close> lacks the suffix as written, and nothing is appended to it.
\<close>

theorem trailing_space_suffix_not_appended:
  "\<not> endswith ''sectionA.tex '' ''.tex''
   \<and> target_filename ''sectionA.tex '' = ''sectionA.tex''
   \<and> target_filename ''sectionA.tex '' \<noteq> ''sectionA.tex '' @ ''.tex''"
  by code_simp

text \<open>
  Claim C7 as amended: the file name of a directive is its argument stripped of
  surrounding white space, with \<^verbatim>\<open>.tex\<close> appended when the stripped argument lacks it. So
  for an argument \<open>a\<close> without surrounding white space that lacks the suffix, \<open>a\<close> and
  \<open>a.tex\<close> give the same file name and the same path, and two matches at the same offsets
  that differ only in having the one or the other as argument have the same round.
\<close>

theorem suffix_optional_in_argument:
  assumes "str_strip a = a" and "\<not> endswith a ''.tex''"
  shows "target_filename arg
           = (if endswith (str_strip arg) ''.tex'' then str_strip arg else str_strip arg @ ''.tex'')
       \<and> target_filename a = a @ ''.tex''
       \<and> target_filename (a @ ''.tex'') = a @ ''.tex''
       \<and> resolve_included_path fs base_folder tex_file_path (target_filename (a @ ''.tex''))
           = resolve_included_path fs base_folder tex_file_path (target_filename a)
       \<and> process_match fs main_path base_folder tex_file_path recurse (m\<lparr>group1 := a @ ''.tex''\<rparr>) state
           = process_match fs main_path base_folder tex_file_path recurse (m\<lparr>group1 := a\<rparr>) state"
proof -
  have t1: "target_filename a = a @ ''.tex''"
    using assms by (simp add: target_filename_def)
  have t2: "target_filename (a @ ''.tex'') = a @ ''.tex''"
    using str_strip_tex_appended [OF assms(1)] by (simp add: target_filename_def endswith_append)
  have "process_match fs main_path base_folder tex_file_path recurse (m\<lparr>group1 := a @ ''.tex''\<rparr>) state
      = process_match fs main_path base_folder tex_file_path recurse (m\<lparr>group1 := a\<rparr>) state"
    by (rule process_match_group1) (simp_all add: t1 t2)
  with t1 t2 show ?thesis
    by (simp add: target_filename_def)
qed

theorem suffix_optional_witness:
  "str_strip ''sectionA'' = ''sectionA'' \<and> \<not> endswith ''sectionA'' ''.tex''
   \<and> target_filename ''sectionA'' = ''sectionA.tex''
   \<and> target_filename ''sectionA.tex'' = ''sectionA.tex''"
proof -
  have h1: "str_strip ''sectionA'' = ''sectionA''" by code_simp
  have h2: "\<not> endswith ''sectionA'' ''.tex''" by code_simp
  from suffix_optional_in_argument [OF h1 h2]
  have "target_filename ''sectionA'' = ''sectionA'' @ ''.tex''"
    and "target_filename (''sectionA'' @ ''.tex'') = ''sectionA'' @ ''.tex''"
    by blast+
  with h1 h2 show ?thesis by simp
qed

subsection \<open>The test for the suffix\<close>

text \<open>
  Claim C10: the test is an exact, case-sensitive test on the ending of the argument;
  every argument that does not end in \<^verbatim>\<open>.tex\<close> gets \<^verbatim>\<open>.tex\<close> appended.

  The test is made on the stripped argument: an argument written with a tab after
  \<^verbatim>\<open>.tex\<close> does not end in \<^verbatim>\<open>.tex\<close>, and nothing is appended to it.
\<close>

theorem trailing_tab_counts_as_tex_ending:
  "\<not> endswith (''figure.tex'' @ [CHR 0x09]) ''.tex''
   \<and> target_filename (''figure.tex'' @ [CHR 0x09]) = ''figure.tex''"
  by code_simp

text \<open>
  Claim C10 as amended: the test is an exact, case-sensitive test on the ending of the
  argument stripped of surrounding white space. When the stripped argument does not end
  in \<^verbatim>\<open>.tex\<close>, the file name is the stripped argument with \<^verbatim>\<open>.tex\<close> appended; it is never the
  argument as written, and the path looked for is built from that file name.
\<close>

theorem suffix_test_exact_after_strip:
  assumes "\<not> endswith (str_strip arg) ''.tex''"
  shows "target_filename arg = str_strip arg @ ''.tex''
       \<and> target_filename arg \<noteq> arg
       \<and> resolve_included_path fs base_folder tex_file_path (target_filename arg)
           = os_path_normpath
               (if slash \<in> set arg \<or> backslash \<in> set arg
                then os_path_join base_folder (replace_backslash (str_strip arg @ ''.tex''))
                else if os_path_exists fs
                          (os_path_join (os_path_dirname tex_file_path) (str_strip arg @ ''.tex''))
                then os_path_join (os_path_dirname tex_file_path) (str_strip arg @ ''.tex'')
                else os_path_join base_folder (str_strip arg @ ''.tex''))"
proof -
  have t: "target_filename arg = str_strip arg @ ''.tex''"
    using assms by (simp add: target_filename_def)
  have ne: "target_filename arg \<noteq> arg"
  proof
    assume "target_filename arg = arg"
    with t have "arg = str_strip arg @ ''.tex''" by simp
    then have "endswith arg ''.tex''" by (metis endswith_append)
    with tex_ending_survives_strip assms show False by blast
  qed
  have "slash \<in> set (target_filename arg) \<longleftrightarrow> slash \<in> set arg"
    and "backslash \<in> set (target_filename arg) \<longleftrightarrow> backslash \<in> set arg"
    by (rule separator_in_target_filename)+
  then have "resolve_included_path fs base_folder tex_file_path (target_filename arg)
           = os_path_normpath
               (if slash \<in> set arg \<or> backslash \<in> set arg
                then os_path_join base_folder (replace_backslash (target_filename arg))
                else if os_path_exists fs
                          (os_path_join (os_path_dirname tex_file_path) (target_filename arg))
                then os_path_join (os_path_dirname tex_file_path) (target_filename arg)
                else os_path_join base_folder (target_filename arg))"
    by (simp add: resolve_included_path_def Let_def)
  with t ne show ?thesis by simp
qed

theorem suffix_test_witness:
  "\<not> endswith (str_strip ''figure.png'') ''.tex''
   \<and> target_filename ''figure.png'' = ''figure.png.tex''
   \<and> \<not> endswith (str_strip ''CHAPTER.TEX'') ''.tex''
   \<and> target_filename ''CHAPTER.TEX'' = ''CHAPTER.TEX.tex''"
proof -
  have h1: "\<not> endswith (str_strip ''figure.png'') ''.tex''" by code_simp
  have h2: "\<not> endswith (str_strip ''CHAPTER.TEX'') ''.tex''" by code_simp
  have s1: "str_strip ''figure.png'' = ''figure.png''" by code_simp
  have s2: "str_strip ''CHAPTER.TEX'' = ''CHAPTER.TEX''" by code_simp
  from suffix_test_exact_after_strip [OF h1]
  have "target_filename ''figure.png'' = str_strip ''figure.png'' @ ''.tex''" by blast
  moreover from suffix_test_exact_after_strip [OF h2]
  have "target_filename ''CHAPTER.TEX'' = str_strip ''CHAPTER.TEX'' @ ''.tex''" by blast
  ultimately show ?thesis using h1 h2 by (simp add: s1 s2)
qed

end
